theory Spec2Isabelle
  imports Main
begin

section \<open>Python values used by \<open>errudite/processor/spacy_annotator.py\<close>\<close>

text \<open>
  The exceptions the module raises or catches. Every constructor is an instance of
  Python's \<open>Exception\<close>; \<open>FileNotFoundError\<close> and \<open>NotADirectoryError\<close> are subclasses of
  \<open>OSError\<close>, and \<open>IOError\<close> is the same class as \<open>OSError\<close> in Python 3 (the module
  uses f-strings, so it is Python 3 code). An \<open>except OSError\<close> clause catches the
  instances for which \<open>isinstance_OSError\<close> holds; \<open>except Exception\<close> catches all of them.
\<close>

datatype exn =
    OSError
  | FileNotFoundError
  | NotADirectoryError
  | ValueError
  | IndexError
  | ImportError
  | RuntimeError

fun isinstance_OSError :: "exn \<Rightarrow> bool" where
  "isinstance_OSError OSError = True"
| "isinstance_OSError FileNotFoundError = True"
| "isinstance_OSError NotADirectoryError = True"
| "isinstance_OSError ValueError = False"
| "isinstance_OSError IndexError = False"
| "isinstance_OSError ImportError = False"
| "isinstance_OSError RuntimeError = False"

subsection \<open>String methods\<close>

text \<open>
  Strings are \<open>char list\<close>, the bytes of their UTF-8 encoding. \<open>str.lower()\<close> follows the
  Unicode case tables, which are the interpreter's and not this module's: the functions
  that call it take it as the parameter \<open>lower\<close>, a function from strings to strings.
\<close>

text \<open>\<open>s.replace(old, new)\<close> for one-character \<open>old\<close> and \<open>new\<close>.\<close>

definition replace_char :: "char \<Rightarrow> char \<Rightarrow> string \<Rightarrow> string" where
  "replace_char old new s = map (\<lambda>c. if c = old then new else c) s"

text \<open>
  \<open>s.split(sep)\<close> for a one-character separator: every occurrence of the separator ends
  a segment, empty segments are kept, and the empty string gives one empty segment.
\<close>

fun split_on :: "char \<Rightarrow> string \<Rightarrow> string list" where
  "split_on sep [] = [[]]"
| "split_on sep (c # cs) =
     (if c = sep then [] # split_on sep cs
      else (case split_on sep cs of
              [] \<Rightarrow> [[c]]
            | w # ws \<Rightarrow> (c # w) # ws))"

text \<open>\<open>sep.join(xs)\<close>.\<close>

fun str_join :: "string \<Rightarrow> string list \<Rightarrow> string" where
  "str_join sep [] = []"
| "str_join sep [x] = x"
| "str_join sep (x # y # ys) = x @ sep @ str_join sep (y # ys)"

text \<open>\<open>sub in s\<close> on strings: \<open>sub\<close> occurs in \<open>s\<close> as a contiguous run.\<close>

fun startswith :: "string \<Rightarrow> string \<Rightarrow> bool" where
  "startswith s [] = True"
| "startswith [] (p # ps) = False"
| "startswith (c # cs) (p # ps) = (c = p \<and> startswith cs ps)"

fun str_contains :: "string \<Rightarrow> string \<Rightarrow> bool" where
  "str_contains sub [] = (sub = [])"
| "str_contains sub (c # cs) = (startswith (c # cs) sub \<or> str_contains sub cs)"

section \<open>The custom tokenizers\<close>

text \<open>
  spaCy's \<open>Doc(vocab, words=words, spaces=spaces)\<close>: the constructor raises \<open>ValueError\<close>
  when the two sequences differ in length (error E027) and when a word is the empty
  string (error E031, \<open>Invalid token: empty string\<close>); otherwise the document holds one
  token per word, each with its trailing-space flag.
\<close>

record 'v doc =
  doc_vocab :: 'v
  words :: "string list"
  spaces :: "bool list"

definition Doc :: "'v \<Rightarrow> string list \<Rightarrow> bool list \<Rightarrow> exn + 'v doc" where
  "Doc vocab ws sps =
     (if length sps \<noteq> length ws then Inl ValueError
      else if [] \<in> set ws then Inl ValueError
      else Inr \<lparr>doc_vocab = vocab, words = ws, spaces = sps\<rparr>)"

text \<open>
  The tokenizer objects; a constructor applied to a vocabulary is the class's \<open>__init__\<close>.
  \<open>DefaultTokenizer\<close> stands for the tokenizer a loaded pipeline comes with.
\<close>

datatype 'v tokenizer =
    DefaultTokenizer
  | WhitespaceTokenizer 'v
  | NoOpTokenizer 'v

text \<open>\<open>NoOpTokenizer.__call__\<close>: the argument is the sequence of words itself.\<close>

definition NoOpTokenizer_call :: "'v \<Rightarrow> string list \<Rightarrow> exn + 'v doc" where
  "NoOpTokenizer_call vocab text =
     (let words = text;
          spaces = replicate (length words) True
      in Doc vocab words spaces)"

text \<open>\<open>WhitespaceTokenizer.__call__\<close>.\<close>

definition WhitespaceTokenizer_call :: "'v \<Rightarrow> string \<Rightarrow> exn + 'v doc" where
  "WhitespaceTokenizer_call vocab text =
     (let words = split_on (CHR '' '') text;
          spaces = replicate (length words) True
      in Doc vocab words spaces)"

section \<open>The installation checks\<close>

text \<open>
  \<open>is_package\<close>: \<open>packages\<close> is the sequence \<open>pkg_resources.working_set.by_key.keys()\<close>, in
  the order the loop meets it. The result is Python's \<open>True\<close>, \<open>False\<close>, or \<open>None\<close> when
  the loop body never runs and the function falls off its end. The \<open>return False\<close> is
  inside the loop body, so the loop never reaches a second iteration.
\<close>

fun is_package_loop :: "(string \<Rightarrow> string) \<Rightarrow> string \<Rightarrow> string list \<Rightarrow> bool option" where
  "is_package_loop lower name [] = None"
| "is_package_loop lower name (package # rest) =
     (if replace_char (CHR ''-'') (CHR ''_'') (lower package) = name then Some True
      else Some False)"

definition is_package :: "(string \<Rightarrow> string) \<Rightarrow> string list \<Rightarrow> string \<Rightarrow> bool option" where
  "is_package lower packages name = is_package_loop lower (lower name) packages"

text \<open>
  The file system as \<open>model_installed\<close> sees it: \<open>util.get_data_path()\<close> gives a path or
  \<open>None\<close>; a path names nothing, a file, or a directory with its entries, each a name
  and what it is. \<open>iterdir\<close> raises an \<open>OSError\<close> on anything that is not a directory and
  otherwise yields every entry, files and directories alike; the code reads only their
  names.
\<close>

datatype kind = RegularFile | Directory

datatype node = File | Dir "(string \<times> kind) list"

record filesystem =
  get_data_path :: "string option"
  lookup :: "string \<Rightarrow> node option"

definition path_exists :: "filesystem \<Rightarrow> string \<Rightarrow> bool" where
  "path_exists fs p = (lookup fs p \<noteq> None)"

definition iterdir :: "filesystem \<Rightarrow> string \<Rightarrow> exn + (string \<times> kind) list" where
  "iterdir fs p =
     (case lookup fs p of
        None \<Rightarrow> Inl FileNotFoundError
      | Some File \<Rightarrow> Inl NotADirectoryError
      | Some (Dir entries) \<Rightarrow> Inr entries)"

definition model_installed ::
  "(string \<Rightarrow> string) \<Rightarrow> filesystem \<Rightarrow> string list \<Rightarrow> string \<Rightarrow> exn + bool" where
  "model_installed lower fs packages name =
     (case get_data_path fs of
        None \<Rightarrow> Inl OSError
      | Some data_path \<Rightarrow>
          if \<not> path_exists fs data_path then Inl OSError
          else (case iterdir fs data_path of
                  Inl e \<Rightarrow> Inl e
                | Inr entries \<Rightarrow>
                    if name \<in> set (map fst entries) then Inr True
                    else if is_package lower packages name = Some True then Inr True
                    else if path_exists fs name then Inr True
                    else Inr False))"

section \<open>Stop-word removal\<close>

text \<open>
  An annotated token, with the three attributes \<open>remove_stopwords\<close> reads: \<open>token.text\<close>,
  \<open>token.lemma_\<close> and \<open>token.is_punct\<close>.
\<close>

record token =
  tok_text :: string
  tok_lemma :: string
  is_punct :: bool

text \<open>
  Token sequences are objects the caller and the callee share, so they live in a store:
  an address holds the current content of a sequence. The \<open>tokens\<close> argument is \<open>None\<close>
  or a reference into the store. The pipeline \<open>self.model\<close> belongs to spaCy: called on a
  string it raises or returns the tokens of a new document, and it may change the store.
  \<open>STOP_WORDS\<close> is the constant imported from \<open>ling_consts\<close>; both are parameters.
\<close>

type_synonym addr = nat

type_synonym store = "addr \<Rightarrow> token list"

type_synonym pipeline = "string \<Rightarrow> store \<Rightarrow> (exn + token list) \<times> store"

text \<open>\<open>getattr(token, attr)\<close> with \<open>attr = 'lemma_' if use_lemma else 'text'\<close>.\<close>

definition token_attr :: "bool \<Rightarrow> token \<Rightarrow> string" where
  "token_attr use_lemma t = (if use_lemma then tok_lemma t else tok_text t)"

text \<open>The list comprehension of the \<open>return\<close> statement, as the loop it runs.\<close>

fun surviving :: "string set \<Rightarrow> bool \<Rightarrow> token list \<Rightarrow> string list" where
  "surviving STOP_WORDS use_lemma [] = []"
| "surviving STOP_WORDS use_lemma (t # ts) =
     (if \<not> is_punct t \<and> tok_text t \<notin> STOP_WORDS \<and> tok_lemma t \<notin> STOP_WORDS
      then token_attr use_lemma t # surviving STOP_WORDS use_lemma ts
      else surviving STOP_WORDS use_lemma ts)"

text \<open>
  \<open>remove_stopwords\<close>. \<open>not tokens\<close> holds for \<open>None\<close> and for an empty sequence; a string
  is truthy when it is neither \<open>None\<close> nor empty. The function assigns only to its local
  variable \<open>tokens\<close>; the store it returns is the one the pipeline left, or the one it got.
\<close>

definition remove_stopwords ::
  "pipeline \<Rightarrow> string set \<Rightarrow> string option \<Rightarrow> addr option \<Rightarrow> bool \<Rightarrow> store
     \<Rightarrow> (exn + string) \<times> store" where
  "remove_stopwords model STOP_WORDS sentence_str tokens use_lemma \<sigma> =
     (let given = (case tokens of None \<Rightarrow> [] | Some a \<Rightarrow> \<sigma> a) in
      if given = [] then
        (case sentence_str of
           None \<Rightarrow> (Inr (str_join '' '' (surviving STOP_WORDS use_lemma [])), \<sigma>)
         | Some s \<Rightarrow>
             if s \<noteq> [] then
               (case model s \<sigma> of
                  (Inl e, \<sigma>') \<Rightarrow> (Inl e, \<sigma>')
                | (Inr doc, \<sigma>') \<Rightarrow>
                    (Inr (str_join '' '' (surviving STOP_WORDS use_lemma doc)), \<sigma>'))
             else (Inr (str_join '' '' (surviving STOP_WORDS use_lemma [])), \<sigma>))
      else (Inr (str_join '' '' (surviving STOP_WORDS use_lemma given)), \<sigma>))"

section \<open>The model loader\<close>

text \<open>
  What the module calls outside itself changes the world (the installed packages, the
  links, the cache files) and may raise. Each such operation is a parameter: a function
  from the world to a result or an exception, and the world afterwards. The model keeps a
  trace of these calls, in the order they are made, so that their number and order can be
  stated; \<open>logger.warning\<close> is not traced.
\<close>

datatype event =
    EvLoad string "string list"
  | EvDownload string
  | EvImportLink
  | EvGetPackagePath string
  | EvLink string string string
  | EvBuildCachedPath string
  | EvLoadCaches string
  | EvFromBytes string

fun is_load :: "event \<Rightarrow> bool" where
  "is_load (EvLoad lang disable) = True"
| "is_load ev = False"

fun is_download :: "event \<Rightarrow> bool" where
  "is_download (EvDownload lang) = True"
| "is_download ev = False"

text \<open>
  The loaded pipeline (spaCy's \<open>Language\<close> object), with the two attributes the module
  touches: \<open>tokenizer\<close> and \<open>vocab\<close>.
\<close>

record 'v language =
  lang_tokenizer :: "'v tokenizer"
  lang_vocab :: 'v

text \<open>
  The operations: \<open>spacy.load(lang, disable=disable)\<close>, \<open>spacy_download(lang)\<close>, the two
  \<open>import\<close> statements of the linking workaround, \<open>get_package_path(lang)\<close>,
  \<open>link(lang, lang, model_path=package_path)\<close>, \<open>vocab.from_bytes(bytes)\<close> (which gives the
  vocabulary as updated), and, from \<open>errudite/utils\<close>, \<open>build_cached_path(name)\<close> and
  \<open>load_caches(path)\<close> (which gives \<open>None\<close> or the bytes it read).
\<close>

record ('w, 'v) library =
  spacy_load :: "string \<Rightarrow> string list \<Rightarrow> 'w \<Rightarrow> (exn + 'v language) \<times> 'w"
  spacy_download :: "string \<Rightarrow> 'w \<Rightarrow> (exn + unit) \<times> 'w"
  import_link :: "'w \<Rightarrow> (exn + unit) \<times> 'w"
  get_package_path :: "string \<Rightarrow> 'w \<Rightarrow> (exn + string) \<times> 'w"
  link :: "string \<Rightarrow> string \<Rightarrow> string \<Rightarrow> 'w \<Rightarrow> (exn + unit) \<times> 'w"
  vocab_from_bytes :: "'v \<Rightarrow> string \<Rightarrow> 'w \<Rightarrow> (exn + 'v) \<times> 'w"
  build_cached_path :: "string \<Rightarrow> 'w \<Rightarrow> (exn + string) \<times> 'w"
  load_caches :: "string \<Rightarrow> 'w \<Rightarrow> (exn + string option) \<times> 'w"

type_synonym 'w state = "'w \<times> event list"

text \<open>
  \<open>call f ev\<close> runs the operation \<open>f\<close> on the world and appends \<open>ev\<close> to the trace;
  \<open>and_then\<close> is statement sequencing: an exception in the first statement skips the rest.
\<close>

definition call :: "('w \<Rightarrow> (exn + 'a) \<times> 'w) \<Rightarrow> event \<Rightarrow> 'w state \<Rightarrow> (exn + 'a) \<times> 'w state" where
  "call f ev s = (case s of (w, tr) \<Rightarrow> (case f w of (r, w') \<Rightarrow> (r, (w', tr @ [ev]))))"

definition and_then ::
  "('w state \<Rightarrow> (exn + 'a) \<times> 'w state) \<Rightarrow> ('a \<Rightarrow> 'w state \<Rightarrow> (exn + 'b) \<times> 'w state)
     \<Rightarrow> 'w state \<Rightarrow> (exn + 'b) \<times> 'w state" where
  "and_then m k s = (case m s of (Inl e, s') \<Rightarrow> (Inl e, s') | (Inr x, s') \<Rightarrow> k x s')"

text \<open>
  \<open>load_lang_model\<close> for an identifier without \<open>coref\<close> (the second \<open>try\<close> statement of the
  function): only an \<open>OSError\<close> of the first load is handled, by download, linking
  workaround and a second load; nothing inside the handler is caught.
\<close>

definition load_standard ::
  "('w, 'v) library \<Rightarrow> string \<Rightarrow> string list \<Rightarrow> 'w state \<Rightarrow> (exn + 'v language) \<times> 'w state" where
  "load_standard L lang disable s =
     (case call (spacy_load L lang disable) (EvLoad lang disable) s of
        (Inr nlp, s1) \<Rightarrow> (Inr nlp, s1)
      | (Inl e, s1) \<Rightarrow>
          if isinstance_OSError e then
            and_then (call (spacy_download L lang) (EvDownload lang)) (\<lambda>_.
            and_then (call (import_link L) EvImportLink) (\<lambda>_.
            and_then (call (get_package_path L lang) (EvGetPackagePath lang)) (\<lambda>package_path.
            and_then (call (link L lang lang package_path) (EvLink lang lang package_path)) (\<lambda>_.
            call (spacy_load L lang disable) (EvLoad lang disable))))) s1
          else (Inl e, s1))"

text \<open>
  \<open>load_lang_model\<close>. With \<open>coref\<close> in the identifier every exception of the load is
  caught and the function calls itself on \<open>lang.split('_')[0]\<close>; that call is outside the
  \<open>try\<close>. The recursion need not end (the first segment may contain \<open>coref\<close> again), so
  the function is partial: \<open>None\<close> is a recursion that never returns, which CPython ends
  with a \<open>RecursionError\<close> once the stack is exhausted.
\<close>

partial_function (option) load_lang_model ::
  "('w, 'v) library \<Rightarrow> string \<Rightarrow> string list \<Rightarrow> 'w state
     \<Rightarrow> ((exn + 'v language) \<times> 'w state) option" where
  "load_lang_model L lang disable s =
     (if str_contains ''coref'' lang then
        (case call (spacy_load L lang disable) (EvLoad lang disable) s of
           (Inr nlp, s1) \<Rightarrow> Some (Inr nlp, s1)
         | (Inl e, s1) \<Rightarrow>
             (case split_on (CHR ''_'') lang of
                [] \<Rightarrow> Some (Inl IndexError, s1)
              | seg # rest \<Rightarrow> load_lang_model L seg disable s1))
      else Some (load_standard L lang disable s))"

declare load_lang_model.simps [code]

section \<open>The annotator\<close>

record 'v annotator =
  ann_model :: "'v language"

text \<open>
  \<open>SpacyAnnotator.load\<close>: any exception of reading the cache is caught and leaves \<open>vocab\<close>
  at \<open>None\<close>; \<open>from_bytes\<close> runs outside the \<open>try\<close>, on a truthy \<open>vocab\<close> only.
\<close>

definition annotator_load ::
  "('w, 'v) library \<Rightarrow> 'v language \<Rightarrow> 'w state \<Rightarrow> (exn + 'v language) \<times> 'w state" where
  "annotator_load L nlp s =
     (case and_then (call (build_cached_path L ''vocab.pkl'') (EvBuildCachedPath ''vocab.pkl''))
             (\<lambda>path. call (load_caches L path) (EvLoadCaches path)) s of
        (Inl e, s1) \<Rightarrow> (Inr nlp, s1)
      | (Inr None, s1) \<Rightarrow> (Inr nlp, s1)
      | (Inr (Some bytes), s1) \<Rightarrow>
          if bytes = [] then (Inr nlp, s1)
          else and_then (call (vocab_from_bytes L (lang_vocab nlp) bytes) (EvFromBytes bytes))
                 (\<lambda>v s2. (Inr (nlp\<lparr>lang_vocab := v\<rparr>), s2)) s1)"

text \<open>
  \<open>SpacyAnnotator.__init__\<close>. \<open>disable or []\<close> turns \<open>None\<close> into the empty list. The two
  tokenizer flags are tested by two separate \<open>if\<close> statements, in this order.
\<close>

definition SpacyAnnotator_init ::
  "('w, 'v) library \<Rightarrow> string list option \<Rightarrow> bool \<Rightarrow> bool \<Rightarrow> string \<Rightarrow> 'w state
     \<Rightarrow> ((exn + 'v annotator) \<times> 'w state) option" where
  "SpacyAnnotator_init L disable pre_tokenized use_whitespace lang s =
     (let disable = (case disable of None \<Rightarrow> [] | Some d \<Rightarrow> d) in
      case load_lang_model L lang disable s of
        None \<Rightarrow> None
      | Some (Inl e, s1) \<Rightarrow> Some (Inl e, s1)
      | Some (Inr nlp, s1) \<Rightarrow>
          (case annotator_load L nlp s1 of
             (Inl e, s2) \<Rightarrow> Some (Inl e, s2)
           | (Inr nlp, s2) \<Rightarrow>
               let nlp = (if use_whitespace
                          then nlp\<lparr>lang_tokenizer := WhitespaceTokenizer (lang_vocab nlp)\<rparr>
                          else nlp);
                   nlp = (if pre_tokenized
                          then nlp\<lparr>lang_tokenizer := NoOpTokenizer (lang_vocab nlp)\<rparr>
                          else nlp)
               in Some (Inr \<lparr>ann_model = nlp\<rparr>, s2)))"

section \<open>Example environments\<close>

text \<open>
  Concrete pipelines and stores at which the theorems below are instantiated. The example
  pipeline splits on spaces, gives every token its text as lemma and marks none as
  punctuation; \<open>scribbling_pipeline\<close> also overwrites address 1 of the store.
\<close>

definition plain_token :: "string \<Rightarrow> token" where
  "plain_token w = \<lparr>tok_text = w, tok_lemma = w, is_punct = False\<rparr>"

definition example_pipeline :: pipeline where
  "example_pipeline s \<sigma> = (Inr (map plain_token (split_on (CHR '' '') s)), \<sigma>)"

definition scribbling_pipeline :: pipeline where
  "scribbling_pipeline s \<sigma> =
     (Inr (map plain_token (split_on (CHR '' '') s)), \<sigma>(1 := [plain_token ''x'']))"

definition example_store :: store where
  "example_store = (\<lambda>a. [])(0 := [plain_token ''the'', plain_token ''cat'', plain_token ''sat''])"

text \<open>
  A pipeline that lemmatises and marks punctuation: \<open>cats\<close> has the lemma \<open>cat\<close>, \<open>sat\<close>
  the lemma \<open>sit\<close>, every other word is its own lemma, and the full stop is punctuation.
  \<open>annotated_store\<close> holds the tokens of \<open>the cats sat .\<close> at address 0.
\<close>

definition annotated_token :: "string \<Rightarrow> token" where
  "annotated_token w =
     \<lparr>tok_text = w,
      tok_lemma = (if w = ''cats'' then ''cat'' else if w = ''sat'' then ''sit'' else w),
      is_punct = (w = ''.'')\<rparr>"

definition annotating_pipeline :: pipeline where
  "annotating_pipeline s \<sigma> = (Inr (map annotated_token (split_on (CHR '' '') s)), \<sigma>)"

definition annotated_store :: store where
  "annotated_store = (\<lambda>a. [])(0 := map annotated_token [''the'', ''cats'', ''sat'', ''.''])"

text \<open>
  \<open>str.lower()\<close> on ASCII strings, where it turns \<open>A\<close> to \<open>Z\<close> into \<open>a\<close> to \<open>z\<close> and leaves
  every other character: the value of the parameter \<open>lower\<close> at the ASCII names of the
  examples.
\<close>

definition ascii_lower_char :: "char \<Rightarrow> char" where
  "ascii_lower_char c =
     (case map_of (zip ''ABCDEFGHIJKLMNOPQRSTUVWXYZ'' ''abcdefghijklmnopqrstuvwxyz'') c of
        None \<Rightarrow> c
      | Some d \<Rightarrow> d)"

definition ascii_lower :: "string \<Rightarrow> string" where
  "ascii_lower s = map ascii_lower_char s"


definition example_fs :: filesystem where
  "example_fs =
     \<lparr>get_data_path = Some ''data'',
      lookup = (\<lambda>p. if p = ''data'' then Some (Dir [(''en'', Directory), (''README'', RegularFile)])
                    else None)\<rparr>"

text \<open>
  An example library. The world is the list of installed models; \<open>available\<close> are the
  models a download can fetch (none when the machine is offline). Loading an installed
  model gives a pipeline with the default tokenizer, loading another raises \<open>OSError\<close>;
  no vocabulary cache has been written.
\<close>

definition example_library :: "string list \<Rightarrow> (string list, unit) library" where
  "example_library available =
     \<lparr>spacy_load = (\<lambda>lang disable w.
         if lang \<in> set w then (Inr \<lparr>lang_tokenizer = DefaultTokenizer, lang_vocab = ()\<rparr>, w)
         else (Inl OSError, w)),
      spacy_download = (\<lambda>lang w.
         if lang \<in> set available then (Inr (), lang # w) else (Inl OSError, w)),
      import_link = (\<lambda>w. (Inr (), w)),
      get_package_path = (\<lambda>lang w.
         if lang \<in> set w then (Inr (''site-packages/'' @ lang), w) else (Inl ImportError, w)),
      link = (\<lambda>origin link_name model_path w. (Inr (), w)),
      vocab_from_bytes = (\<lambda>v bytes w. (Inr v, w)),
      build_cached_path = (\<lambda>name w. (Inr (''caches/'' @ name), w)),
      load_caches = (\<lambda>path w. (Inl FileNotFoundError, w))\<rparr>"

text \<open>The same library with a pipeline that raises \<open>ValueError\<close> on every load.\<close>

definition broken_library :: "(string list, unit) library" where
  "broken_library = (example_library [])\<lparr>spacy_load := (\<lambda>lang disable w. (Inl ValueError, w))\<rparr>"

section \<open>Properties of the string methods\<close>

lemma split_on_not_Nil: "split_on sep s \<noteq> []"
  by (induction s) (auto split: list.splits)

lemma length_split_on: "length (split_on sep s) = count_list s sep + 1"
proof (induction s)
  case Nil
  show ?case by simp
next
  case (Cons c cs)
  obtain w ws where sp: "split_on sep cs = w # ws"
    using split_on_not_Nil [of sep cs] by (cases "split_on sep cs") auto
  with Cons show ?case by auto
qed

lemma join_split_on: "str_join [sep] (split_on sep s) = s"
proof (induction s)
  case Nil
  show ?case by simp
next
  case (Cons c cs)
  obtain w ws where sp: "split_on sep cs = w # ws"
    using split_on_not_Nil [of sep cs] by (cases "split_on sep cs") auto
  show ?case
  proof (cases "c = sep")
    case True
    with Cons sp show ?thesis by simp
  next
    case False
    with Cons sp show ?thesis by (cases ws) auto
  qed
qed

lemma sep_not_in_split_on: "sep \<notin> set (concat (split_on sep s))"
proof (induction s)
  case Nil
  show ?case by simp
next
  case (Cons c cs)
  obtain w ws where sp: "split_on sep cs = w # ws"
    using split_on_not_Nil [of sep cs] by (cases "split_on sep cs") auto
  with Cons show ?case by auto
qed

lemma startswith_iff: "startswith s p \<longleftrightarrow> (\<exists>r. s = p @ r)"
  by (induction s p rule: startswith.induct) auto

lemma str_contains_iff: "str_contains sub s \<longleftrightarrow> (\<exists>ps ss. s = ps @ sub @ ss)"
proof (induction s)
  case Nil
  show ?case by auto
next
  case (Cons c cs)
  show ?case
  proof
    assume "str_contains sub (c # cs)"
    then consider "startswith (c # cs) sub" | "str_contains sub cs" by auto
    then show "\<exists>ps ss. c # cs = ps @ sub @ ss"
    proof cases
      case 1
      then obtain r where "c # cs = sub @ r" by (auto simp: startswith_iff)
      then have "c # cs = [] @ sub @ r" by simp
      then show ?thesis by blast
    next
      case 2
      with Cons obtain ps ss where "cs = ps @ sub @ ss" by auto
      then have "c # cs = (c # ps) @ sub @ ss" by simp
      then show ?thesis by blast
    qed
  next
    assume "\<exists>ps ss. c # cs = ps @ sub @ ss"
    then obtain ps ss where eq: "c # cs = ps @ sub @ ss" by blast
    show "str_contains sub (c # cs)"
    proof (cases ps)
      case Nil
      with eq have "startswith (c # cs) sub" by (auto simp: startswith_iff)
      then show ?thesis by simp
    next
      case (Cons p ps')
      with eq have "cs = ps' @ sub @ ss" by simp
      with Cons.IH have "str_contains sub cs" by blast
      then show ?thesis by simp
    qed
  qed
qed

lemma hd_split_on: "hd (split_on sep s) = takeWhile (\<lambda>c. c \<noteq> sep) s"
proof (induction s)
  case Nil
  show ?case by simp
next
  case (Cons c cs)
  obtain w ws where sp: "split_on sep cs = w # ws"
    using split_on_not_Nil [of sep cs] by (cases "split_on sep cs") auto
  with Cons show ?case by auto
qed

lemma hd_split_on_empty: "hd (split_on sep s) = [] \<longleftrightarrow> s = [] \<or> hd s = sep"
  unfolding hd_split_on by (cases s) auto

lemma tl_split_on_empty:
  "[] \<in> set (tl (split_on sep s)) \<longleftrightarrow> (s \<noteq> [] \<and> last s = sep) \<or> str_contains [sep, sep] s"
proof (induction s)
  case Nil
  show ?case by simp
next
  case (Cons c cs)
  obtain w ws where sp: "split_on sep cs = w # ws"
    using split_on_not_Nil [of sep cs] by (cases "split_on sep cs") auto
  have hdw: "w = [] \<longleftrightarrow> cs = [] \<or> hd cs = sep"
    using hd_split_on_empty [of sep cs] sp by simp
  show ?case
  proof (cases "c = sep")
    case True
    have "[] \<in> set (tl (split_on sep (c # cs))) \<longleftrightarrow> w = [] \<or> [] \<in> set ws"
      using True sp by auto
    also have "\<dots> \<longleftrightarrow> (cs = [] \<or> hd cs = sep) \<or> (cs \<noteq> [] \<and> last cs = sep)
        \<or> str_contains [sep, sep] cs"
      using Cons.IH sp hdw by auto
    also have "\<dots> \<longleftrightarrow> (c # cs \<noteq> [] \<and> last (c # cs) = sep) \<or> str_contains [sep, sep] (c # cs)"
      using True by (cases cs) auto
    finally show ?thesis .
  next
    case False
    have "[] \<in> set (tl (split_on sep (c # cs))) \<longleftrightarrow> [] \<in> set ws"
      using False sp by simp
    also have "\<dots> \<longleftrightarrow> (cs \<noteq> [] \<and> last cs = sep) \<or> str_contains [sep, sep] cs"
      using Cons.IH sp by simp
    also have "\<dots> \<longleftrightarrow> (c # cs \<noteq> [] \<and> last (c # cs) = sep) \<or> str_contains [sep, sep] (c # cs)"
      using False by (cases cs) auto
    finally show ?thesis .
  qed
qed

lemma split_on_empty_segment:
  "[] \<in> set (split_on sep s) \<longleftrightarrow>
     s = [] \<or> hd s = sep \<or> last s = sep \<or> str_contains [sep, sep] s"
proof -
  obtain w ws where sp: "split_on sep s = w # ws"
    using split_on_not_Nil [of sep s] by (cases "split_on sep s") auto
  have "[] \<in> set (split_on sep s) \<longleftrightarrow> hd (split_on sep s) = [] \<or> [] \<in> set (tl (split_on sep s))"
    using sp by auto
  then show ?thesis
    by (auto simp: hd_split_on_empty tl_split_on_empty)
qed

section \<open>The tokenizers\<close>

text \<open>
  Claim C5, as amended. For every input string that is not empty and has no leading,
  trailing or doubled space, the whitespace tokenizer returns a document whose words are
  the segments between the space characters, in order: there is one more word than there
  are spaces in the input, no word contains a space, and putting a single space between
  consecutive words gives the input back; every word carries the trailing-space flag. For
  every other string one segment is the empty string, and the call raises the
  \<open>ValueError\<close> of the document constructor.
\<close>

theorem whitespace_tokenizer_segments:
  "(text \<noteq> [] \<and> hd text \<noteq> CHR '' '' \<and> last text \<noteq> CHR '' '' \<and> \<not> str_contains ''  '' text
      \<longrightarrow> (\<exists>d. WhitespaceTokenizer_call vocab text = Inr d
            \<and> length (words d) = count_list text (CHR '' '') + 1
            \<and> str_join '' '' (words d) = text
            \<and> CHR '' '' \<notin> set (concat (words d))
            \<and> spaces d = replicate (length (words d)) True
            \<and> doc_vocab d = vocab))
   \<and> (text = [] \<or> hd text = CHR '' '' \<or> last text = CHR '' '' \<or> str_contains ''  '' text
      \<longrightarrow> WhitespaceTokenizer_call vocab text = Inl ValueError)"
proof (intro conjI impI)
  let ?ws = "split_on (CHR '' '') text"
  assume "text \<noteq> [] \<and> hd text \<noteq> CHR '' '' \<and> last text \<noteq> CHR '' '' \<and> \<not> str_contains ''  '' text"
  then have ne: "[] \<notin> set ?ws"
    by (simp add: split_on_empty_segment)
  then have call: "WhitespaceTokenizer_call vocab text =
      Inr \<lparr>doc_vocab = vocab, words = ?ws, spaces = replicate (length ?ws) True\<rparr>"
    by (simp add: WhitespaceTokenizer_call_def Doc_def Let_def)
  have n: "length ?ws = count_list text (CHR '' '') + 1"
    by (rule length_split_on)
  have j: "str_join '' '' ?ws = text"
    by (rule join_split_on)
  have c: "CHR '' '' \<notin> set (concat ?ws)"
    by (rule sep_not_in_split_on)
  from call n j c show "\<exists>d. WhitespaceTokenizer_call vocab text = Inr d
      \<and> length (words d) = count_list text (CHR '' '') + 1
      \<and> str_join '' '' (words d) = text
      \<and> CHR '' '' \<notin> set (concat (words d))
      \<and> spaces d = replicate (length (words d)) True
      \<and> doc_vocab d = vocab"
    by simp
next
  assume "text = [] \<or> hd text = CHR '' '' \<or> last text = CHR '' '' \<or> str_contains ''  '' text"
  then have "[] \<in> set (split_on (CHR '' '') text)"
    by (simp add: split_on_empty_segment)
  then show "WhitespaceTokenizer_call vocab text = Inl ValueError"
    by (simp add: WhitespaceTokenizer_call_def Doc_def Let_def)
qed

theorem whitespace_tokenizer_segments_witness:
  "WhitespaceTokenizer_call () ''the cat sat'' =
      Inr \<lparr>doc_vocab = (), words = [''the'', ''cat'', ''sat''], spaces = [True, True, True]\<rparr>
   \<and> WhitespaceTokenizer_call () ''the cat '' = Inl ValueError"
proof -
  have a: "\<exists>d. WhitespaceTokenizer_call () ''the cat sat'' = Inr d
      \<and> length (words d) = count_list ''the cat sat'' (CHR '' '') + 1
      \<and> str_join '' '' (words d) = ''the cat sat''
      \<and> CHR '' '' \<notin> set (concat (words d))
      \<and> spaces d = replicate (length (words d)) True
      \<and> doc_vocab d = ()"
    using whitespace_tokenizer_segments [of "''the cat sat''" "()"] by simp
  then obtain d where d: "WhitespaceTokenizer_call () ''the cat sat'' = Inr d" by blast
  then have "d = \<lparr>doc_vocab = (), words = [''the'', ''cat'', ''sat''], spaces = [True, True, True]\<rparr>"
    by (simp add: WhitespaceTokenizer_call_def Doc_def Let_def)
  with d have a': "WhitespaceTokenizer_call () ''the cat sat'' =
      Inr \<lparr>doc_vocab = (), words = [''the'', ''cat'', ''sat''], spaces = [True, True, True]\<rparr>"
    by simp
  have b: "WhitespaceTokenizer_call () ''the cat '' = Inl ValueError"
    using whitespace_tokenizer_segments [of "''the cat ''" "()"] by simp
  from a' b show ?thesis by blast
qed

text \<open>
  The claim C5 as stated fails on every string with an empty segment: the empty string
  and a string with a doubled space make the document constructor raise, so no tokens
  are produced.
\<close>

theorem whitespace_tokenizer_raises:
  "WhitespaceTokenizer_call () '''' = Inl ValueError
   \<and> split_on (CHR '' '') ''a  b'' = [''a'', '''', ''b'']
   \<and> WhitespaceTokenizer_call () ''a  b'' = Inl ValueError"
  by (simp add: WhitespaceTokenizer_call_def Doc_def Let_def)

text \<open>
  Claim C6, as amended. For every sequence of words none of which is the empty string the
  pass-through tokenizer returns a document whose words are the input sequence itself, so
  one token per element in the same order with the same content, and every token carries
  the trailing-space flag. For a sequence with an empty string among its elements the
  call raises the \<open>ValueError\<close> of the document constructor.
\<close>

theorem noop_tokenizer_passes_through:
  "([] \<notin> set text
      \<longrightarrow> (\<exists>d. NoOpTokenizer_call vocab text = Inr d
            \<and> words d = text
            \<and> length (words d) = length text
            \<and> spaces d = replicate (length text) True
            \<and> doc_vocab d = vocab))
   \<and> ([] \<in> set text \<longrightarrow> NoOpTokenizer_call vocab text = Inl ValueError)"
  by (simp add: NoOpTokenizer_call_def Doc_def Let_def)

theorem noop_tokenizer_passes_through_witness:
  "NoOpTokenizer_call () [''a b'', ''c''] =
      Inr \<lparr>doc_vocab = (), words = [''a b'', ''c''], spaces = [True, True]\<rparr>
   \<and> NoOpTokenizer_call () [''a'', ''''] = Inl ValueError"
proof -
  have "\<exists>d. NoOpTokenizer_call () [''a b'', ''c''] = Inr d \<and> words d = [''a b'', ''c'']
      \<and> length (words d) = length [''a b'', ''c'']
      \<and> spaces d = replicate (length [''a b'', ''c'']) True \<and> doc_vocab d = ()"
    using noop_tokenizer_passes_through [of "[''a b'', ''c'']" "()"] by simp
  then obtain d where d: "NoOpTokenizer_call () [''a b'', ''c''] = Inr d"
    and w: "words d = [''a b'', ''c'']" and sp: "spaces d = [True, True]"
    by (auto simp: numeral_2_eq_2)
  have "d = \<lparr>doc_vocab = (), words = [''a b'', ''c''], spaces = [True, True]\<rparr>"
    using w sp by (cases d) simp
  with d have a: "NoOpTokenizer_call () [''a b'', ''c''] =
      Inr \<lparr>doc_vocab = (), words = [''a b'', ''c''], spaces = [True, True]\<rparr>"
    by simp
  have b: "NoOpTokenizer_call () [''a'', ''''] = Inl ValueError"
    using noop_tokenizer_passes_through [of "[''a'', '''']" "()"] by simp
  from a b show ?thesis by blast
qed

text \<open>
  The claim C6 as stated fails on a sequence with an empty word: the document
  constructor raises, so no token is produced for any element.
\<close>

theorem noop_tokenizer_raises:
  "NoOpTokenizer_call () [''a b'', '''', ''c''] = Inl ValueError"
  by (simp add: NoOpTokenizer_call_def Doc_def Let_def)

section \<open>The installation checks\<close>

lemma is_package_Cons:
  "is_package lower (package # rest) name =
     Some (replace_char (CHR ''-'') (CHR ''_'') (lower package) = lower name)"
  by (simp add: is_package_def)


text \<open>
  Claim C1. The claim asks for a scan of all installed names. With the installed names
  \<open>pip, spacy\<close> the name \<open>spacy\<close> is installed (the second name, normalised, equals it),
  yet \<open>is_package\<close> answers \<open>False\<close>: it returns at the first name.
\<close>

theorem is_package_stops_at_first:
  "is_package ascii_lower [''pip'', ''spacy''] ''spacy'' = Some False
     \<and> replace_char (CHR ''-'') (CHR ''_'') (ascii_lower ([''pip'', ''spacy''] ! 1)) =
         ascii_lower ''spacy''"
  by (simp add: is_package_def ascii_lower_def ascii_lower_char_def replace_char_def)




text \<open>
  The early return of \<open>is_package\<close> (claim C1) shows in \<open>model_installed\<close> as well: the
  installed distribution \<open>de\<close>, second in the list, is not recognised.
\<close>

lemma model_installed_misses_package:
  "model_installed ascii_lower example_fs [''pip'', ''de''] ''de'' = Inr False"
  by (simp add: model_installed_def path_exists_def iterdir_def example_fs_def is_package_def
      ascii_lower_def ascii_lower_char_def replace_char_def)

section \<open>Stop-word removal\<close>

lemma surviving_filter:
  "surviving STOP_WORDS use_lemma ts =
     map (\<lambda>t. if use_lemma then tok_lemma t else tok_text t)
       (filter (\<lambda>t. \<not> (is_punct t \<or> tok_text t \<in> STOP_WORDS \<or> tok_lemma t \<in> STOP_WORDS)) ts)"
  by (induction ts) (auto simp: token_attr_def)

text \<open>
  Claim C2, as amended. For every non-empty token sequence the caller passes, and for an
  empty one when no non-empty sentence is given with it, the result is the chosen
  attribute (lemma when \<open>use_lemma\<close>, text otherwise) of exactly the tokens that are not
  punctuation and whose text and lemma are both outside the stop-word set, in order,
  joined by single spaces. When the tokens are absent or empty and a non-empty sentence
  is given, the tokens the pipeline returns for the sentence are filtered and joined in
  the same way. In particular, when the pipeline splits \<open>the cat sat\<close> into the three
  words, none punctuation, and the stop-word set contains \<open>the\<close> and neither the text nor
  the lemma of the other two tokens, the call on that sentence with \<open>use_lemma=False\<close>
  returns \<open>cat sat\<close>.
\<close>

theorem remove_stopwords_filters_and_joins:
  "(\<sigma> a \<noteq> [] \<or> sentence_str = None \<or> sentence_str = Some []
      \<longrightarrow> remove_stopwords model STOP_WORDS sentence_str (Some a) use_lemma \<sigma> =
            (Inr (str_join '' ''
               (map (\<lambda>t. if use_lemma then tok_lemma t else tok_text t)
                  (filter (\<lambda>t. \<not> (is_punct t \<or> tok_text t \<in> STOP_WORDS
                                   \<or> tok_lemma t \<in> STOP_WORDS)) (\<sigma> a)))), \<sigma>))
   \<and> ((tokens = None \<or> (\<exists>b. tokens = Some b \<and> \<sigma> b = [])) \<and> s \<noteq> []
        \<and> model s \<sigma> = (Inr doc, \<sigma>')
      \<longrightarrow> remove_stopwords model STOP_WORDS (Some s) tokens use_lemma \<sigma> =
            (Inr (str_join '' ''
               (map (\<lambda>t. if use_lemma then tok_lemma t else tok_text t)
                  (filter (\<lambda>t. \<not> (is_punct t \<or> tok_text t \<in> STOP_WORDS
                                   \<or> tok_lemma t \<in> STOP_WORDS)) doc))), \<sigma>'))
   \<and> (model ''the cat sat'' \<sigma> = (Inr doc, \<sigma>')
        \<and> map tok_text doc = [''the'', ''cat'', ''sat'']
        \<and> ''the'' \<in> STOP_WORDS
        \<and> (\<forall>t \<in> set doc. \<not> is_punct t
              \<and> (tok_text t \<noteq> ''the'' \<longrightarrow> tok_text t \<notin> STOP_WORDS \<and> tok_lemma t \<notin> STOP_WORDS))
      \<longrightarrow> fst (remove_stopwords model STOP_WORDS (Some ''the cat sat'') None False \<sigma>) =
            Inr ''cat sat'')"
proof (intro conjI impI)
  assume "\<sigma> a \<noteq> [] \<or> sentence_str = None \<or> sentence_str = Some []"
  then show "remove_stopwords model STOP_WORDS sentence_str (Some a) use_lemma \<sigma> =
      (Inr (str_join '' ''
         (map (\<lambda>t. if use_lemma then tok_lemma t else tok_text t)
            (filter (\<lambda>t. \<not> (is_punct t \<or> tok_text t \<in> STOP_WORDS
                             \<or> tok_lemma t \<in> STOP_WORDS)) (\<sigma> a)))), \<sigma>)"
    by (auto simp: remove_stopwords_def surviving_filter Let_def)
next
  assume "(tokens = None \<or> (\<exists>b. tokens = Some b \<and> \<sigma> b = [])) \<and> s \<noteq> []
      \<and> model s \<sigma> = (Inr doc, \<sigma>')"
  then show "remove_stopwords model STOP_WORDS (Some s) tokens use_lemma \<sigma> =
      (Inr (str_join '' ''
         (map (\<lambda>t. if use_lemma then tok_lemma t else tok_text t)
            (filter (\<lambda>t. \<not> (is_punct t \<or> tok_text t \<in> STOP_WORDS
                             \<or> tok_lemma t \<in> STOP_WORDS)) doc))), \<sigma>')"
    by (auto simp: remove_stopwords_def surviving_filter Let_def)
next
  assume h: "model ''the cat sat'' \<sigma> = (Inr doc, \<sigma>')
      \<and> map tok_text doc = [''the'', ''cat'', ''sat'']
      \<and> ''the'' \<in> STOP_WORDS
      \<and> (\<forall>t \<in> set doc. \<not> is_punct t
            \<and> (tok_text t \<noteq> ''the'' \<longrightarrow> tok_text t \<notin> STOP_WORDS \<and> tok_lemma t \<notin> STOP_WORDS))"
  then obtain t1 t2 t3 where doc: "doc = [t1, t2, t3]"
    and t1: "tok_text t1 = ''the''" and t2: "tok_text t2 = ''cat''"
    and t3: "tok_text t3 = ''sat''"
    by (auto simp: map_eq_Cons_conv)
  from h doc t2 t3 have keep: "\<not> is_punct t2" "tok_text t2 \<notin> STOP_WORDS" "tok_lemma t2 \<notin> STOP_WORDS"
      "\<not> is_punct t3" "tok_text t3 \<notin> STOP_WORDS" "tok_lemma t3 \<notin> STOP_WORDS"
    by auto
  from h t1 have drop: "tok_text t1 \<in> STOP_WORDS" by simp
  have "surviving STOP_WORDS False doc = [''cat'', ''sat'']"
    using doc keep drop t2 t3 by (simp add: token_attr_def)
  moreover from h have "model ''the cat sat'' \<sigma> = (Inr doc, \<sigma>')" by simp
  ultimately show "fst (remove_stopwords model STOP_WORDS (Some ''the cat sat'') None False \<sigma>) =
      Inr ''cat sat''"
    by (simp add: remove_stopwords_def Let_def)
qed

theorem remove_stopwords_filters_and_joins_witness:
  "remove_stopwords annotating_pipeline {''the''} None (Some 0) True annotated_store =
      (Inr ''cat sit'', annotated_store)
   \<and> remove_stopwords annotating_pipeline {''the''} None (Some 0) False annotated_store =
      (Inr ''cats sat'', annotated_store)
   \<and> remove_stopwords annotating_pipeline {''the'', ''sit''} None (Some 0) False annotated_store =
      (Inr ''cats'', annotated_store)
   \<and> remove_stopwords annotating_pipeline {''the''} (Some ''a sat cats .'') (Some 1) True
        annotated_store = (Inr ''a sit cat'', annotated_store)
   \<and> fst (remove_stopwords annotating_pipeline {''the''} (Some ''the cat sat'') None False
        annotated_store) = Inr ''cat sat''"
proof -
  have a: "remove_stopwords annotating_pipeline {''the''} None (Some 0) True annotated_store =
      (Inr ''cat sit'', annotated_store)"
    using remove_stopwords_filters_and_joins
      [where \<sigma> = annotated_store and a = 0 and sentence_str = None
        and model = annotating_pipeline and STOP_WORDS = "{''the''}" and use_lemma = True]
    by (simp add: annotated_store_def annotated_token_def)
  have b: "remove_stopwords annotating_pipeline {''the''} None (Some 0) False annotated_store =
      (Inr ''cats sat'', annotated_store)"
    using remove_stopwords_filters_and_joins
      [where \<sigma> = annotated_store and a = 0 and sentence_str = None
        and model = annotating_pipeline and STOP_WORDS = "{''the''}" and use_lemma = False]
    by (simp add: annotated_store_def annotated_token_def)
  have c: "remove_stopwords annotating_pipeline {''the'', ''sit''} None (Some 0) False
      annotated_store = (Inr ''cats'', annotated_store)"
    using remove_stopwords_filters_and_joins
      [where \<sigma> = annotated_store and a = 0 and sentence_str = None
        and model = annotating_pipeline and STOP_WORDS = "{''the'', ''sit''}"
        and use_lemma = False]
    by (simp add: annotated_store_def annotated_token_def)
  have d: "remove_stopwords annotating_pipeline {''the''} (Some ''a sat cats .'') (Some 1) True
      annotated_store = (Inr ''a sit cat'', annotated_store)"
    using remove_stopwords_filters_and_joins
      [where \<sigma> = annotated_store and STOP_WORDS = "{''the''}" and use_lemma = True
        and tokens = "Some 1" and s = "''a sat cats .''" and model = annotating_pipeline
        and doc = "map annotated_token [''a'', ''sat'', ''cats'', ''.'']"
        and \<sigma>' = annotated_store]
    by (simp add: annotated_store_def annotating_pipeline_def annotated_token_def)
  have e: "fst (remove_stopwords annotating_pipeline {''the''} (Some ''the cat sat'') None False
      annotated_store) = Inr ''cat sat''"
    using remove_stopwords_filters_and_joins
      [where \<sigma> = annotated_store and STOP_WORDS = "{''the''}" and model = annotating_pipeline
        and doc = "map annotated_token [''the'', ''cat'', ''sat'']"
        and \<sigma>' = annotated_store]
    by (simp add: annotating_pipeline_def annotated_token_def)
  from a b c d e show ?thesis by blast
qed

text \<open>
  The claim C2 as stated fails on the empty token sequence given together with a
  sentence: nothing can survive from an empty sequence, yet the result is not the empty
  string. An empty sequence counts as absent, and the sentence is tokenized instead.
\<close>

theorem remove_stopwords_empty_tokens_use_sentence:
  "annotated_store 1 = []
   \<and> remove_stopwords annotating_pipeline {''the''} (Some ''a cat'') (Some 1) False
        annotated_store = (Inr ''a cat'', annotated_store)"
  by (simp add: remove_stopwords_def Let_def annotating_pipeline_def annotated_store_def
      annotated_token_def token_attr_def)

text \<open>
  Claim C7. With no sentence (\<open>None\<close> or the empty string) and no tokens (\<open>None\<close> or an empty
  sequence) \<open>remove_stopwords\<close> returns the empty string: it does not raise, does not call
  the pipeline and leaves the store as it is. This holds for every pipeline, also one
  that would raise.
\<close>

theorem remove_stopwords_absent_input:
  "remove_stopwords model STOP_WORDS None None use_lemma \<sigma> = (Inr [], \<sigma>)
   \<and> remove_stopwords model STOP_WORDS (Some []) None use_lemma \<sigma> = (Inr [], \<sigma>)
   \<and> (\<sigma> a = []
      \<longrightarrow> remove_stopwords model STOP_WORDS None (Some a) use_lemma \<sigma> = (Inr [], \<sigma>)
        \<and> remove_stopwords model STOP_WORDS (Some []) (Some a) use_lemma \<sigma> = (Inr [], \<sigma>))"
  by (simp add: remove_stopwords_def Let_def)

theorem remove_stopwords_absent_input_witness:
  "example_store 1 = []
   \<and> remove_stopwords scribbling_pipeline {''the''} None (Some 1) True example_store =
       (Inr [], example_store)
   \<and> remove_stopwords scribbling_pipeline {''the''} (Some []) (Some 1) True example_store =
       (Inr [], example_store)"
proof -
  have e: "example_store 1 = []" by (simp add: example_store_def)
  from e remove_stopwords_absent_input
    [where \<sigma> = example_store and a = 1 and model = scribbling_pipeline
      and STOP_WORDS = "{''the''}" and use_lemma = True]
  show ?thesis by blast
qed

text \<open>
  Claim C10. \<open>remove_stopwords\<close> does not change the token sequence the caller passes. When
  that sequence is non-empty the whole store is returned as it was. When it is empty and
  the pipeline is run on the sentence, the store is the one the pipeline left, and the
  caller's sequence is unchanged as long as the pipeline itself does not write to it.
\<close>

theorem remove_stopwords_keeps_tokens:
  "(\<sigma> a \<noteq> [] \<longrightarrow> snd (remove_stopwords model STOP_WORDS sentence_str (Some a) use_lemma \<sigma>) = \<sigma>)
   \<and> ((\<forall>s. snd (model s \<sigma>) a = \<sigma> a)
      \<longrightarrow> snd (remove_stopwords model STOP_WORDS sentence_str (Some a) use_lemma \<sigma>) a = \<sigma> a)"
proof (intro conjI impI)
  assume "\<sigma> a \<noteq> []"
  then show "snd (remove_stopwords model STOP_WORDS sentence_str (Some a) use_lemma \<sigma>) = \<sigma>"
    by (simp add: remove_stopwords_def Let_def)
next
  assume frame: "\<forall>s. snd (model s \<sigma>) a = \<sigma> a"
  show "snd (remove_stopwords model STOP_WORDS sentence_str (Some a) use_lemma \<sigma>) a = \<sigma> a"
  proof (cases "\<sigma> a = [] \<and> (\<exists>s. sentence_str = Some s \<and> s \<noteq> [])")
    case True
    then obtain s where s: "sentence_str = Some s" "s \<noteq> []" and em: "\<sigma> a = []" by blast
    obtain r \<sigma>' where m: "model s \<sigma> = (r, \<sigma>')" by (cases "model s \<sigma>")
    with frame have "\<sigma>' a = \<sigma> a" by (metis snd_conv)
    with s em m show ?thesis
      by (cases r) (simp_all add: remove_stopwords_def Let_def)
  next
    case False
    then show ?thesis
      by (auto simp: remove_stopwords_def Let_def split: option.splits)
  qed
qed

theorem remove_stopwords_keeps_tokens_witness:
  "snd (remove_stopwords scribbling_pipeline {''the''} (Some ''a cat'') (Some 0) True
      example_store) = example_store
   \<and> snd (remove_stopwords scribbling_pipeline {''the''} (Some ''a cat'') (Some 2) True
      example_store) 2 = example_store 2
   \<and> snd (remove_stopwords scribbling_pipeline {''the''} (Some ''a cat'') (Some 2) True
      example_store) \<noteq> example_store"
proof -
  have a: "snd (remove_stopwords scribbling_pipeline {''the''} (Some ''a cat'') (Some 0) True
      example_store) = example_store"
    using remove_stopwords_keeps_tokens
      [where \<sigma> = example_store and a = 0 and model = scribbling_pipeline
        and STOP_WORDS = "{''the''}" and sentence_str = "Some ''a cat''" and use_lemma = True]
    by (simp add: example_store_def)
  have b: "snd (remove_stopwords scribbling_pipeline {''the''} (Some ''a cat'') (Some 2) True
      example_store) 2 = example_store 2"
    using remove_stopwords_keeps_tokens
      [where \<sigma> = example_store and a = 2 and model = scribbling_pipeline
        and STOP_WORDS = "{''the''}" and sentence_str = "Some ''a cat''" and use_lemma = True]
    by (simp add: scribbling_pipeline_def)
  have "snd (remove_stopwords scribbling_pipeline {''the''} (Some ''a cat'') (Some 2) True
      example_store) 1 \<noteq> example_store 1"
    by (simp add: remove_stopwords_def Let_def scribbling_pipeline_def example_store_def)
  then have c: "snd (remove_stopwords scribbling_pipeline {''the''} (Some ''a cat'') (Some 2) True
      example_store) \<noteq> example_store"
    by metis
  from a b c show ?thesis by blast
qed

section \<open>The model loader\<close>

lemma split_on_takeWhile:
  "\<exists>rest. split_on sep s = takeWhile (\<lambda>c. c \<noteq> sep) s # rest"
proof (induction s)
  case Nil
  show ?case by simp
next
  case (Cons c cs)
  then obtain rest where "split_on sep cs = takeWhile (\<lambda>c. c \<noteq> sep) cs # rest" by blast
  then show ?case by simp
qed

lemma load_lang_model_plain:
  "\<not> str_contains ''coref'' lang \<Longrightarrow>
     load_lang_model L lang disable s = Some (load_standard L lang disable s)"
  by (subst load_lang_model.simps) simp

text \<open>
  Claim C3, as amended. For an identifier without \<open>coref\<close> whose first load raises: an
  exception that is not an \<open>OSError\<close> propagates after that one load, with no download.
  After an \<open>OSError\<close> the function always returns or raises, having made exactly one
  download attempt and at most one further load. If the download raises, its exception
  propagates and neither the linking workaround nor a second load happens. If the
  download, the imports, the package-path lookup and the link all complete, the calls are
  load, download, imports, package path, link, load, in this order, and the outcome of
  the call is the outcome of the second load.
\<close>

theorem load_lang_model_not_found:
  assumes nc: "\<not> str_contains ''coref'' lang"
    and l1: "spacy_load L lang disable w = (Inl e, w1)"
  shows "(\<not> isinstance_OSError e \<longrightarrow>
            load_lang_model L lang disable (w, tr) =
              Some (Inl e, (w1, tr @ [EvLoad lang disable])))
    \<and> (isinstance_OSError e \<longrightarrow>
         (\<exists>r w' tr'. load_lang_model L lang disable (w, tr) =
              Some (r, (w', tr @ EvLoad lang disable # tr'))
            \<and> filter is_download tr' = [EvDownload lang]
            \<and> length (filter is_load tr') \<le> 1))
    \<and> (isinstance_OSError e \<and> spacy_download L lang w1 = (Inl e2, w2) \<longrightarrow>
            load_lang_model L lang disable (w, tr) =
              Some (Inl e2, (w2, tr @ [EvLoad lang disable, EvDownload lang])))
    \<and> (isinstance_OSError e \<and> spacy_download L lang w1 = (Inr (), w2)
          \<and> import_link L w2 = (Inr (), w3)
          \<and> get_package_path L lang w3 = (Inr package_path, w4)
          \<and> link L lang lang package_path w4 = (Inr (), w5)
          \<and> spacy_load L lang disable w5 = (r, w6) \<longrightarrow>
            load_lang_model L lang disable (w, tr) =
              Some (r, (w6, tr @ [EvLoad lang disable, EvDownload lang, EvImportLink,
                     EvGetPackagePath lang, EvLink lang lang package_path,
                     EvLoad lang disable])))"
proof (intro conjI impI)
  assume "\<not> isinstance_OSError e"
  with nc l1 show "load_lang_model L lang disable (w, tr) =
      Some (Inl e, (w1, tr @ [EvLoad lang disable]))"
    by (simp add: load_lang_model_plain load_standard_def call_def)
next
  assume os: "isinstance_OSError e"
  obtain r2 w2' where d: "spacy_download L lang w1 = (r2, w2')" by (cases "spacy_download L lang w1")
  obtain r3 w3' where i: "import_link L w2' = (r3, w3')" by (cases "import_link L w2'")
  obtain r4 w4' where g: "get_package_path L lang w3' = (r4, w4')"
    by (cases "get_package_path L lang w3'")
  show "\<exists>r w' tr'. load_lang_model L lang disable (w, tr) =
        Some (r, (w', tr @ EvLoad lang disable # tr'))
      \<and> filter is_download tr' = [EvDownload lang]
      \<and> length (filter is_load tr') \<le> 1"
  proof (cases r2)
    case (Inl x)
    with nc l1 os d show ?thesis
      by (simp add: load_lang_model_plain load_standard_def call_def and_then_def)
  next
    case dok: (Inr u)
    show ?thesis
    proof (cases r3)
      case (Inl x)
      with nc l1 os d i dok show ?thesis
        by (simp add: load_lang_model_plain load_standard_def call_def and_then_def)
    next
      case iok: (Inr u')
      show ?thesis
      proof (cases r4)
        case (Inl x)
        with nc l1 os d i g dok iok show ?thesis
          by (simp add: load_lang_model_plain load_standard_def call_def and_then_def)
      next
        case gok: (Inr pp)
        obtain r5 w5' where k: "link L lang lang pp w4' = (r5, w5')"
          by (cases "link L lang lang pp w4'")
        obtain r6 w6' where l2: "spacy_load L lang disable w5' = (r6, w6')"
          by (cases "spacy_load L lang disable w5'")
        show ?thesis
        proof (cases r5)
          case (Inl x)
          with nc l1 os d i g k dok iok gok show ?thesis
            by (simp add: load_lang_model_plain load_standard_def call_def and_then_def)
        next
          case (Inr u'')
          with nc l1 os d i g k l2 dok iok gok show ?thesis
            by (simp add: load_lang_model_plain load_standard_def call_def and_then_def)
        qed
      qed
    qed
  qed
next
  assume "isinstance_OSError e \<and> spacy_download L lang w1 = (Inl e2, w2)"
  with nc l1 show "load_lang_model L lang disable (w, tr) =
      Some (Inl e2, (w2, tr @ [EvLoad lang disable, EvDownload lang]))"
    by (simp add: load_lang_model_plain load_standard_def call_def and_then_def)
next
  assume "isinstance_OSError e \<and> spacy_download L lang w1 = (Inr (), w2)
      \<and> import_link L w2 = (Inr (), w3)
      \<and> get_package_path L lang w3 = (Inr package_path, w4)
      \<and> link L lang lang package_path w4 = (Inr (), w5)
      \<and> spacy_load L lang disable w5 = (r, w6)"
  with nc l1 show "load_lang_model L lang disable (w, tr) =
      Some (r, (w6, tr @ [EvLoad lang disable, EvDownload lang, EvImportLink,
             EvGetPackagePath lang, EvLink lang lang package_path, EvLoad lang disable]))"
    by (simp add: load_lang_model_plain load_standard_def call_def and_then_def)
qed


theorem load_lang_model_not_found_witness:
  "\<not> str_contains ''coref'' ''en''
   \<and> spacy_load (example_library [''en'']) ''en'' [] [] = (Inl OSError, [])
   \<and> load_lang_model (example_library [''en'']) ''en'' [] ([], []) =
       Some (Inr \<lparr>lang_tokenizer = DefaultTokenizer, lang_vocab = ()\<rparr>,
             ([''en''], [EvLoad ''en'' [], EvDownload ''en'', EvImportLink,
                        EvGetPackagePath ''en'', EvLink ''en'' ''en'' ''site-packages/en'',
                        EvLoad ''en'' []]))
   \<and> load_lang_model broken_library ''en'' [] ([], []) =
       Some (Inl ValueError, ([], [EvLoad ''en'' []]))"
proof -
  have nc: "\<not> str_contains ''coref'' ''en''" by simp
  have l1: "spacy_load (example_library [''en'']) ''en'' [] [] = (Inl OSError, [])"
    by (simp add: example_library_def)
  have a: "load_lang_model (example_library [''en'']) ''en'' [] ([], []) =
       Some (Inr \<lparr>lang_tokenizer = DefaultTokenizer, lang_vocab = ()\<rparr>,
             ([''en''], [EvLoad ''en'' [], EvDownload ''en'', EvImportLink,
                        EvGetPackagePath ''en'', EvLink ''en'' ''en'' ''site-packages/en'',
                        EvLoad ''en'' []]))"
    using load_lang_model_not_found [OF nc l1,
        where ?w2.0 = "[''en'']" and ?w3.0 = "[''en'']" and ?w4.0 = "[''en'']"
          and ?w5.0 = "[''en'']" and ?w6.0 = "[''en'']" and tr = "[]"
          and package_path = "''site-packages/en''"
          and r = "Inr \<lparr>lang_tokenizer = DefaultTokenizer, lang_vocab = ()\<rparr>"]
    by (simp add: example_library_def)
  have l1': "spacy_load broken_library ''en'' [] [] = (Inl ValueError, [])"
    by (simp add: broken_library_def)
  have b: "load_lang_model broken_library ''en'' [] ([], []) =
       Some (Inl ValueError, ([], [EvLoad ''en'' []]))"
    using load_lang_model_not_found [OF nc l1', where tr = "[]"] by simp
  from nc l1 a b show ?thesis by blast
qed

text \<open>
  The claim C3 as stated fails when the download cannot complete (here: nothing is
  installed and nothing can be fetched). The first load of \<open>en\<close> raises \<open>OSError\<close>, the one
  download attempt raises, and the call raises with it: no linking, no second load.
\<close>

theorem load_lang_model_download_fails:
  "\<not> str_contains ''coref'' ''en''
   \<and> spacy_load (example_library []) ''en'' [] [] = (Inl OSError, [])
   \<and> load_lang_model (example_library []) ''en'' [] ([], []) =
       Some (Inl OSError, ([], [EvLoad ''en'' [], EvDownload ''en'']))"
  by (simp add: load_lang_model_plain load_standard_def call_def and_then_def
      example_library_def)

text \<open>
  Claim C4, as amended. For an identifier containing \<open>coref\<close> whose load raises, whatever
  the exception, \<open>load_lang_model\<close> behaves as its call on the part of the identifier
  before the first underscore, made after that one failed load: it returns what that call
  returns and raises what it raises. When this base identifier does not contain \<open>coref\<close>
  the fallback is the ordinary load of the base identifier (download and retry included),
  and there is no further recursion.
\<close>

theorem load_lang_model_coref_fallback:
  assumes co: "str_contains ''coref'' lang"
    and l1: "spacy_load L lang disable w = (Inl e, w1)"
  shows "load_lang_model L lang disable (w, tr) =
           load_lang_model L (takeWhile (\<lambda>c. c \<noteq> CHR ''_'') lang) disable
             (w1, tr @ [EvLoad lang disable])
    \<and> (\<not> str_contains ''coref'' (takeWhile (\<lambda>c. c \<noteq> CHR ''_'') lang) \<longrightarrow>
         load_lang_model L lang disable (w, tr) =
           Some (load_standard L (takeWhile (\<lambda>c. c \<noteq> CHR ''_'') lang) disable
             (w1, tr @ [EvLoad lang disable])))"
proof -
  obtain rest where sp: "split_on (CHR ''_'') lang = takeWhile (\<lambda>c. c \<noteq> CHR ''_'') lang # rest"
    using split_on_takeWhile by blast
  have step: "load_lang_model L lang disable (w, tr) =
           load_lang_model L (takeWhile (\<lambda>c. c \<noteq> CHR ''_'') lang) disable
             (w1, tr @ [EvLoad lang disable])"
    by (subst load_lang_model.simps) (simp add: co l1 sp call_def)
  then show ?thesis by (simp add: load_lang_model_plain)
qed

theorem load_lang_model_coref_fallback_witness:
  "str_contains ''coref'' ''en_coref_sm''
   \<and> spacy_load (example_library [''en'']) ''en_coref_sm'' [] [] = (Inl OSError, [])
   \<and> load_lang_model (example_library [''en'']) ''en_coref_sm'' [] ([], []) =
       Some (Inr \<lparr>lang_tokenizer = DefaultTokenizer, lang_vocab = ()\<rparr>,
             ([''en''], [EvLoad ''en_coref_sm'' [], EvLoad ''en'' [], EvDownload ''en'',
                        EvImportLink, EvGetPackagePath ''en'',
                        EvLink ''en'' ''en'' ''site-packages/en'', EvLoad ''en'' []]))"
proof -
  have co: "str_contains ''coref'' ''en_coref_sm''" by simp
  have l1: "spacy_load (example_library [''en'']) ''en_coref_sm'' [] [] = (Inl OSError, [])"
    by (simp add: example_library_def)
  have base: "takeWhile (\<lambda>c. c \<noteq> CHR ''_'') ''en_coref_sm'' = ''en''" by simp
  have nc: "\<not> str_contains ''coref'' ''en''" by simp
  have std: "load_standard (example_library [''en'']) ''en'' [] ([], [EvLoad ''en_coref_sm'' []]) =
       (Inr \<lparr>lang_tokenizer = DefaultTokenizer, lang_vocab = ()\<rparr>,
             ([''en''], [EvLoad ''en_coref_sm'' [], EvLoad ''en'' [], EvDownload ''en'',
                        EvImportLink, EvGetPackagePath ''en'',
                        EvLink ''en'' ''en'' ''site-packages/en'', EvLoad ''en'' []]))"
    by (simp add: load_standard_def call_def and_then_def example_library_def)
  have "load_lang_model (example_library [''en'']) ''en_coref_sm'' [] ([], []) =
       Some (load_standard (example_library [''en'']) ''en'' []
         ([], [] @ [EvLoad ''en_coref_sm'' []]))"
    using load_lang_model_coref_fallback [OF co l1, where tr = "[]"] nc
    unfolding base by blast
  with std have "load_lang_model (example_library [''en'']) ''en_coref_sm'' [] ([], []) =
       Some (Inr \<lparr>lang_tokenizer = DefaultTokenizer, lang_vocab = ()\<rparr>,
             ([''en''], [EvLoad ''en_coref_sm'' [], EvLoad ''en'' [], EvDownload ''en'',
                        EvImportLink, EvGetPackagePath ''en'',
                        EvLink ''en'' ''en'' ''site-packages/en'', EvLoad ''en'' []]))"
    by simp
  with co l1 show ?thesis by blast
qed


text \<open>
  With nothing installed and nothing to fetch, the recursion on \<open>coref_sm\<close> reaches
  \<open>coref\<close>, which contains the marker again and fails to load again: no call returns.
\<close>

lemma load_lang_model_coref_never_returns:
  assumes ret: "load_lang_model L lang disable s = Some y"
  shows "\<not> (L = example_library [] \<and> fst s = [] \<and> (lang = ''coref_sm'' \<or> lang = ''coref''))"
proof (rule load_lang_model.raw_induct
    [where P = "\<lambda>L lang disable s y.
       \<not> (L = example_library [] \<and> fst s = [] \<and> (lang = ''coref_sm'' \<or> lang = ''coref''))",
      OF _ ret], goal_cases)
  case (1 rec L lang disable s y)
  show ?case
  proof
    assume h: "L = example_library [] \<and> fst s = [] \<and> (lang = ''coref_sm'' \<or> lang = ''coref'')"
    then obtain tr where s: "s = ([], tr)" by (cases s) auto
    from h have L: "L = example_library []" by simp
    have ld: "call (spacy_load L lang disable) (EvLoad lang disable) s =
        (Inl OSError, ([], tr @ [EvLoad lang disable]))"
      by (simp add: L s call_def example_library_def)
    from h have co: "str_contains ''coref'' lang" by auto
    from h have "\<exists>rest. split_on (CHR ''_'') lang = ''coref'' # rest" by auto
    then obtain rest where sp: "split_on (CHR ''_'') lang = ''coref'' # rest" by blast
    from "1"(2) co ld sp
    have "rec L ''coref'' disable ([], tr @ [EvLoad lang disable]) = Some y"
      by simp
    from "1"(1) [OF this] L show False by simp
  qed
qed

text \<open>
  The claim C4 as stated fails twice. The fallback can raise: with nothing installed and
  nothing to fetch, \<open>en_coref_sm\<close> falls back to \<open>en\<close>, whose load and download both
  raise \<open>OSError\<close>. And the recursion need not happen exactly once: on \<open>coref_sm\<close> it
  never ends.
\<close>

theorem load_lang_model_fallback_fails:
  "str_contains ''coref'' ''en_coref_sm''
   \<and> spacy_load (example_library []) ''en_coref_sm'' [] [] = (Inl OSError, [])
   \<and> load_lang_model (example_library []) ''en_coref_sm'' [] ([], []) =
       Some (Inl OSError, ([], [EvLoad ''en_coref_sm'' [], EvLoad ''en'' [], EvDownload ''en'']))
   \<and> str_contains ''coref'' ''coref_sm''
   \<and> spacy_load (example_library []) ''coref_sm'' [] [] = (Inl OSError, [])
   \<and> load_lang_model (example_library []) ''coref_sm'' [] ([], []) = None"
proof -
  have a: "load_lang_model (example_library []) ''en_coref_sm'' [] ([], []) =
       Some (Inl OSError, ([], [EvLoad ''en_coref_sm'' [], EvLoad ''en'' [], EvDownload ''en'']))"
    by (subst load_lang_model.simps)
      (simp add: load_lang_model_plain load_standard_def call_def and_then_def
        example_library_def)
  have b: "load_lang_model (example_library []) ''coref_sm'' [] ([], []) = None"
  proof (cases "load_lang_model (example_library []) ''coref_sm'' [] ([], [])")
    case None
    then show ?thesis .
  next
    case (Some y)
    from load_lang_model_coref_never_returns [OF this] show ?thesis by simp
  qed
  have c: "str_contains ''coref'' ''en_coref_sm''" "str_contains ''coref'' ''coref_sm''"
    by simp_all
  have d: "spacy_load (example_library []) ''en_coref_sm'' [] [] = (Inl OSError, [])"
    "spacy_load (example_library []) ''coref_sm'' [] [] = (Inl OSError, [])"
    by (simp_all add: example_library_def)
  from a b c d show ?thesis by blast
qed

section \<open>The annotator\<close>

text \<open>
  Claim C9. Whenever the construction of the annotator succeeds with the pre-tokenized
  flag set, the tokenizer installed on the pipeline is the pass-through tokenizer over the
  pipeline's vocabulary, whether or not the whitespace flag is set as well: the
  pre-tokenized flag is tested second and overwrites. The whitespace tokenizer is the
  one installed only when the whitespace flag is set and the pre-tokenized flag is not.
\<close>

theorem SpacyAnnotator_init_tokenizer:
  "SpacyAnnotator_init L disable pre_tokenized use_whitespace lang s = Some (Inr a, s') \<Longrightarrow>
     (pre_tokenized \<longrightarrow>
        lang_tokenizer (ann_model a) = NoOpTokenizer (lang_vocab (ann_model a)))
   \<and> (\<not> pre_tokenized \<and> use_whitespace \<longrightarrow>
        lang_tokenizer (ann_model a) = WhitespaceTokenizer (lang_vocab (ann_model a)))"
  by (auto simp: SpacyAnnotator_init_def Let_def split: option.splits sum.splits prod.splits)

theorem SpacyAnnotator_init_tokenizer_witness:
  "SpacyAnnotator_init (example_library [''en'']) None True True ''en'' ([], []) =
     Some (Inr \<lparr>ann_model = \<lparr>lang_tokenizer = NoOpTokenizer (), lang_vocab = ()\<rparr>\<rparr>,
       ([''en''], [EvLoad ''en'' [], EvDownload ''en'', EvImportLink, EvGetPackagePath ''en'',
          EvLink ''en'' ''en'' ''site-packages/en'', EvLoad ''en'' [],
          EvBuildCachedPath ''vocab.pkl'', EvLoadCaches ''caches/vocab.pkl'']))
   \<and> lang_tokenizer (ann_model \<lparr>ann_model = \<lparr>lang_tokenizer = NoOpTokenizer (), lang_vocab = ()\<rparr>\<rparr>)
       = NoOpTokenizer ()"
proof -
  have i: "SpacyAnnotator_init (example_library [''en'']) None True True ''en'' ([], []) =
     Some (Inr \<lparr>ann_model = \<lparr>lang_tokenizer = NoOpTokenizer (), lang_vocab = ()\<rparr>\<rparr>,
       ([''en''], [EvLoad ''en'' [], EvDownload ''en'', EvImportLink, EvGetPackagePath ''en'',
          EvLink ''en'' ''en'' ''site-packages/en'', EvLoad ''en'' [],
          EvBuildCachedPath ''vocab.pkl'', EvLoadCaches ''caches/vocab.pkl'']))"
    by (simp add: SpacyAnnotator_init_def annotator_load_def load_lang_model_plain
        load_standard_def call_def and_then_def example_library_def)
  from SpacyAnnotator_init_tokenizer [OF i] i show ?thesis by simp
qed

end
